theory Spec2Isabelle
  imports Complex_Main
begin

section \<open>Data model (src/types/christmas.ts)\<close>

text \<open>
  JavaScript numbers are modelled as \<^typ>\<open>real\<close>: the comparisons and the arithmetic of
  the source are read as exact, and NaN and the infinities are left out.
\<close>

datatype TreeState = Tree | Galaxy | Focus

datatype GestureType = GNone | Fist | Open | Pinch | Pointing

text \<open>
  A landmark of the tracking library: an object with numeric fields x, y and z. A frame
  is declared \<open>any[]\<close>: each of its entries is a landmark or is \<open>null\<close> or
  \<open>undefined\<close>, which is \<open>None\<close> here.
\<close>

record landmark =
  px :: real
  py :: real
  pz :: real

record HandGestureState =
  gesture :: GestureType
  handPosition :: "(real \<times> real) option"
  pinchDistance :: real
  isTracking :: bool

text \<open>Reading a property of \<open>undefined\<close> raises a TypeError.\<close>

datatype js_error = TypeError

section \<open>Gesture classification (src/hooks/useHandGesture.ts)\<close>

text \<open>\<open>xs[i]\<close>: an index past the end of a JavaScript array reads \<open>undefined\<close>.\<close>

definition at_index :: "'a list \<Rightarrow> nat \<Rightarrow> 'a option" where
  "at_index xs i = (if i < length xs then Some (xs ! i) else None)"

text \<open>
  \<open>landmarks[i]\<close> as the object whose properties are read next: \<open>None\<close> when the index
  is past the end or the entry is \<open>null\<close> or \<open>undefined\<close>.
\<close>

definition entry :: "landmark option list \<Rightarrow> nat \<Rightarrow> landmark option" where
  "entry landmarks i = (case at_index landmarks i of Some (Some p) \<Rightarrow> Some p | _ \<Rightarrow> None)"

definition calculateFingerDistance ::
  "landmark option list \<Rightarrow> nat \<Rightarrow> nat \<Rightarrow> js_error + real" where
  "calculateFingerDistance landmarks finger1 finger2 =
     (case (entry landmarks finger1, entry landmarks finger2) of
        (Some p1, Some p2) \<Rightarrow>
          Inr (sqrt ((px p1 - px p2)\<^sup>2 + (py p1 - py p2)\<^sup>2 + (pz p1 - pz p2)\<^sup>2))
      | _ \<Rightarrow> Inl TypeError)"

text \<open>\<open>tip.y < mcp.y\<close>, where either operand may be \<open>null\<close> or \<open>undefined\<close>.\<close>

definition tip_above :: "landmark option \<Rightarrow> landmark option \<Rightarrow> js_error + bool" where
  "tip_above tip mcp =
     (case (tip, mcp) of
        (Some t, Some m) \<Rightarrow> Inr (py t < py m)
      | _ \<Rightarrow> Inl TypeError)"

text \<open>
  The frame is \<open>None\<close> when the argument is \<open>null\<close> or \<open>undefined\<close>. The branches are in
  the order of the source: pinch, open, fist, pointing, none.
\<close>

definition detectGesture :: "landmark option list option \<Rightarrow> js_error + GestureType" where
  "detectGesture landmarks =
     (case landmarks of
        None \<Rightarrow> Inr GNone
      | Some lm \<Rightarrow>
          if length lm < 21 then Inr GNone
          else
            (case calculateFingerDistance lm 4 8 of
               Inl e \<Rightarrow> Inl e
             | Inr pinchDist \<Rightarrow>
                 if pinchDist < 0.06 then Inr Pinch
                 else
                   (case (tip_above (entry lm 8) (entry lm 5),
                          tip_above (entry lm 12) (entry lm 9),
                          tip_above (entry lm 16) (entry lm 13),
                          tip_above (entry lm 20) (entry lm 17)) of
                      (Inr indexExtended, Inr middleExtended, Inr ringExtended, Inr pinkyExtended) \<Rightarrow>
                        (let extendedCount =
                               length (filter (\<lambda>b. b)
                                 [indexExtended, middleExtended, ringExtended, pinkyExtended])
                         in if extendedCount \<ge> 3 then Inr Open
                            else if extendedCount \<le> 1 then Inr Fist
                            else if indexExtended \<and> \<not> middleExtended \<and> \<not> ringExtended
                                    \<and> \<not> pinkyExtended then Inr Pointing
                            else Inr GNone)
                    | _ \<Rightarrow> Inl TypeError)))"

text \<open>
  The tick handler. \<open>results.multiHandLandmarks\<close> is absent (\<open>None\<close>) or a list of
  frames, of which the first is used. The hook keeps the published state, the ref with
  the last gesture, and here also the log of the calls of \<open>onGestureChange\<close>, oldest first.
\<close>

record results =
  multiHandLandmarks :: "landmark option list list option"

record hook =
  hook_state :: HandGestureState
  lastGestureRef :: GestureType
  calls :: "GestureType list"

definition initial_hook :: hook where
  "initial_hook =
     \<lparr>hook_state = \<lparr>gesture = GNone, handPosition = None, pinchDistance = 1, isTracking = False\<rparr>,
      lastGestureRef = GNone, calls = []\<rparr>"

text \<open>
  \<open>hasCallback\<close> says whether the optional \<open>onGestureChange\<close> was given. Every read that
  can raise (lines 85 to 95) comes before the first write (line 98).
\<close>

definition onResults :: "bool \<Rightarrow> hook \<Rightarrow> results \<Rightarrow> js_error + hook" where
  "onResults hasCallback h res =
     (case multiHandLandmarks res of
        Some (landmarks # others) \<Rightarrow>
          (case detectGesture (Some landmarks) of
             Inl e \<Rightarrow> Inl e
           | Inr g \<Rightarrow>
               (case entry landmarks 9 of
                  None \<Rightarrow> Inl TypeError
                | Some palmCenter \<Rightarrow>
                    (case calculateFingerDistance landmarks 4 8 of
                       Inl e \<Rightarrow> Inl e
                     | Inr pinchDist \<Rightarrow>
                         (let h1 = (if g \<noteq> lastGestureRef h
                                    then h\<lparr>lastGestureRef := g,
                                           calls := (if hasCallback then calls h @ [g] else calls h)\<rparr>
                                    else h)
                          in Inr (h1\<lparr>hook_state :=
                                      \<lparr>gesture = g,
                                       handPosition = Some (1 - px palmCenter, py palmCenter),
                                       pinchDistance = pinchDist,
                                       isTracking = True\<rparr>\<rparr>)))))
      | _ \<Rightarrow> Inr (h\<lparr>hook_state := (hook_state h)\<lparr>isTracking := False, handPosition := None\<rparr>\<rparr>))"

text \<open>
  A stream of ticks. A tick that raises has written nothing, so the hook is as before it.
\<close>

fun onResults_all :: "bool \<Rightarrow> hook \<Rightarrow> results list \<Rightarrow> hook" where
  "onResults_all hasCallback h [] = h"
| "onResults_all hasCallback h (res # rest) =
     onResults_all hasCallback
       (case onResults hasCallback h res of Inl e \<Rightarrow> h | Inr h' \<Rightarrow> h') rest"

text \<open>The gesture a tracked frame classifies as; \<open>None\<close> without a hand or when the classifier raises.\<close>

definition frame_gesture :: "results \<Rightarrow> GestureType option" where
  "frame_gesture res =
     (case multiHandLandmarks res of
        Some (landmarks # others) \<Rightarrow>
          (case detectGesture (Some landmarks) of Inl e \<Rightarrow> None | Inr g \<Rightarrow> Some g)
      | _ \<Rightarrow> None)"

text \<open>A frame all of whose entries are landmarks, as the tracking library delivers it.\<close>

definition points :: "landmark list \<Rightarrow> landmark option list" where
  "points lm = map Some lm"

text \<open>Landmark lists used as concrete inputs.\<close>

definition origin :: landmark where
  "origin = \<lparr>px = 0, py = 0, pz = 0\<rparr>"

definition closed_hand_frame :: "landmark list" where
  "closed_hand_frame = (replicate 21 origin)[8 := \<lparr>px = 0, py = 1, pz = 0\<rparr>]"

definition index_only_frame :: "landmark list" where
  "index_only_frame = (replicate 21 origin)[8 := \<lparr>px = 0, py = - 1, pz = 0\<rparr>]"

definition tracked :: "landmark option list \<Rightarrow> results" where
  "tracked landmarks = \<lparr>multiHandLandmarks = Some [landmarks]\<rparr>"

definition no_hand :: results where
  "no_hand = \<lparr>multiHandLandmarks = Some []\<rparr>"

text \<open>
  The distance of the claims, in their words: the Euclidean distance of two landmarks.
\<close>

definition euclidean_distance :: "landmark \<Rightarrow> landmark \<Rightarrow> real" where
  "euclidean_distance p q = sqrt ((px p - px q)\<^sup>2 + (py p - py q)\<^sup>2 + (pz p - pz q)\<^sup>2)"

text \<open>A missing frame, or one with fewer than 21 entries.\<close>

definition degenerate :: "landmark option list option \<Rightarrow> bool" where
  "degenerate landmarks = (case landmarks of None \<Rightarrow> True | Some lm \<Rightarrow> length lm < 21)"

text \<open>
  The indices the classifier reads, and a frame (or a missing one) in which the entries
  at these indices are landmarks.
\<close>

definition read_indices :: "nat list" where
  "read_indices = [4, 8, 5, 9, 12, 13, 16, 17, 20]"

definition readable :: "landmark option list option \<Rightarrow> bool" where
  "readable landmarks =
     (case landmarks of
        None \<Rightarrow> True
      | Some lm \<Rightarrow> list_all (\<lambda>i. entry lm i \<noteq> None) read_indices)"

text \<open>The number of the four fingers index, middle, ring, pinky whose tip is above its knuckle.\<close>

definition extendedCount :: "landmark list \<Rightarrow> nat" where
  "extendedCount lm =
     length (filter (\<lambda>b. b)
       [py (lm ! 8) < py (lm ! 5), py (lm ! 12) < py (lm ! 9),
        py (lm ! 16) < py (lm ! 13), py (lm ! 20) < py (lm ! 17)])"

text \<open>All four fingers extended, thumb tip on the index tip.\<close>

definition open_pinch_frame :: "landmark list" where
  "open_pinch_frame =
     (replicate 21 origin)[5 := \<lparr>px = 0, py = 1, pz = 0\<rparr>, 9 := \<lparr>px = 0, py = 1, pz = 0\<rparr>,
                           13 := \<lparr>px = 0, py = 1, pz = 0\<rparr>, 17 := \<lparr>px = 0, py = 1, pz = 0\<rparr>]"

section \<open>Pointer fallback (useMouseFallback)\<close>

text \<open>
  The refs and state of the hook that the press handlers read and write.
  \<open>Date.now()\<close> is a whole number of milliseconds.
\<close>

record fallback =
  isDragging :: bool
  lastClickRef :: int
  dragStartRef :: "real \<times> real"

definition initial_fallback :: fallback where
  "initial_fallback = \<lparr>isDragging = False, lastClickRef = 0, dragStartRef = (0, 0)\<rparr>"

text \<open>
  A handler returns the hook after the event and the argument of its call of
  \<open>onStateChange\<close>, if it made one. \<open>now\<close> is the value of \<open>Date.now()\<close>, \<open>client\<close>
  the event's \<open>(clientX, clientY)\<close>.
\<close>

definition handleMouseDown ::
  "bool \<Rightarrow> TreeState \<Rightarrow> int \<Rightarrow> real \<times> real \<Rightarrow> fallback \<Rightarrow> fallback \<times> TreeState option" where
  "handleMouseDown enabled currentState now client fb =
     (if \<not> enabled then (fb, None)
      else
        (let timeSinceLastClick = now - lastClickRef fb
         in if timeSinceLastClick < 300
            then (fb\<lparr>lastClickRef := 0\<rparr>, Some (if currentState = Tree then Galaxy else Tree))
            else (fb\<lparr>lastClickRef := now, isDragging := True, dragStartRef := client\<rparr>, None)))"

definition handleTouchStart ::
  "bool \<Rightarrow> TreeState \<Rightarrow> int \<Rightarrow> (real \<times> real) list \<Rightarrow> fallback \<Rightarrow> fallback \<times> TreeState option" where
  "handleTouchStart enabled currentState now touches fb =
     (if \<not> enabled \<or> length touches \<noteq> 1 then (fb, None)
      else
        (let touch = hd touches;
             timeSinceLastClick = now - lastClickRef fb
         in if timeSinceLastClick < 300
            then (fb\<lparr>lastClickRef := 0\<rparr>, Some (if currentState = Tree then Galaxy else Tree))
            else (fb\<lparr>lastClickRef := now, isDragging := True, dragStartRef := touch\<rparr>, None)))"

text \<open>A press: a mouse-down at a point, or a touch-start with its list of touches.\<close>

datatype press = MouseDown "real \<times> real" | TouchStart "(real \<times> real) list"

fun handlePress ::
  "bool \<Rightarrow> TreeState \<Rightarrow> int \<Rightarrow> press \<Rightarrow> fallback \<Rightarrow> fallback \<times> TreeState option" where
  "handlePress enabled currentState now (MouseDown client) fb =
     handleMouseDown enabled currentState now client fb"
| "handlePress enabled currentState now (TouchStart touches) fb =
     handleTouchStart enabled currentState now touches fb"

text \<open>
  Modelled from the spec: the owner of the scene mode (the page component that passes
  \<open>currentState\<close> and \<open>onStateChange\<close>; it is not among the sources) holds one
  process-wide mode and assigns to it the value that \<open>onStateChange\<close> receives.
  A scene is that mode with the hook; \<open>press_at\<close> delivers one press at time \<open>now\<close>.
\<close>

definition press_at :: "bool \<Rightarrow> int \<times> press \<Rightarrow> TreeState \<times> fallback \<Rightarrow> TreeState \<times> fallback" where
  "press_at enabled ev scene =
     (case handlePress enabled (fst scene) (fst ev) (snd ev) (snd scene) of
        (fb', Some newState) \<Rightarrow> (newState, fb')
      | (fb', None) \<Rightarrow> (fst scene, fb'))"

fun presses :: "bool \<Rightarrow> (int \<times> press) list \<Rightarrow> TreeState \<times> fallback \<Rightarrow> TreeState \<times> fallback" where
  "presses enabled [] scene = scene"
| "presses enabled (ev # evs) scene = presses enabled evs (press_at enabled ev scene)"

text \<open>A single-touch or mouse press, the only kind the handlers act on.\<close>

fun single :: "press \<Rightarrow> bool" where
  "single (MouseDown client) = True"
| "single (TouchStart touches) = (length touches = 1)"

section \<open>Formation generators (src/components/christmas/ParticleSystem.tsx)\<close>

text \<open>
  \<open>Math.random()\<close> reads a global generator. Its state is modelled as the sequence of the
  values still to come; a call returns the first and leaves the rest. Every function that
  calls \<open>Math.random()\<close> takes the generator and returns it with its result.
\<close>

type_synonym rng = "nat \<Rightarrow> real"

definition Math_random :: "rng \<Rightarrow> real \<times> rng" where
  "Math_random g = (g 0, \<lambda>n. g (Suc n))"

text \<open>The values of \<open>Math.random()\<close> lie in the half-open interval from 0 to 1.\<close>

definition unit_draws :: "rng \<Rightarrow> bool" where
  "unit_draws g = (\<forall>n. 0 \<le> g n \<and> g n < 1)"

type_synonym vec3 = "real \<times> real \<times> real"

text \<open>
  \<open>index\<close> and \<open>total\<close> (here \<open>total'\<close>) are an array index and the array's length
  at every call, so the total is above 0; \<open>Math.pow\<close> on a base that is not negative is
  \<open>powr\<close>.
\<close>

definition generateTreePosition :: "nat \<Rightarrow> nat \<Rightarrow> rng \<Rightarrow> vec3 \<times> rng" where
  "generateTreePosition index total' g =
     (let height = 8;
          maxRadius = 3.5;
          t = (real index / real total') powr 0.8;
          y = t * height - height / 2;
          layerRadius = maxRadius * (1 - t * 0.95);
          (r1, g1) = Math_random g;
          angle = r1 * pi * 2;
          (r2, g2) = Math_random g1;
          radiusVariation = 0.7 + r2 * 0.3;
          radius = layerRadius * radiusVariation;
          x = cos angle * radius;
          z = sin angle * radius
      in ((x, y, z), g2))"

definition generateGalaxyPosition :: "rng \<Rightarrow> vec3 \<times> rng" where
  "generateGalaxyPosition g =
     (let (r1, g1) = Math_random g;
          radius = 5 + r1 * 10;
          (r2, g2) = Math_random g1;
          theta = r2 * pi * 2;
          (r3, g3) = Math_random g2;
          phi = arccos (2 * r3 - 1)
      in ((radius * sin phi * cos theta,
           radius * sin phi * sin theta * 0.5,
           radius * cos phi), g3))"

text \<open>The distance of a point from the origin.\<close>

definition norm3 :: "vec3 \<Rightarrow> real" where
  "norm3 p = (case p of (x, y, z) \<Rightarrow> sqrt (x\<^sup>2 + y\<^sup>2 + z\<^sup>2))"

text \<open>A point with the vertical compression by 0.5 undone.\<close>

definition uncompressed :: "vec3 \<Rightarrow> vec3" where
  "uncompressed p = (case p of (x, y, z) \<Rightarrow> (x, y / 0.5, z))"

text \<open>Generators used as concrete inputs: the listed values first, then zeros.\<close>

definition draws :: "real list \<Rightarrow> rng" where
  "draws xs = (\<lambda>n. if n < length xs then xs ! n else 0)"

section \<open>Photo cards (PhotoCards)\<close>



definition SPRING_STIFFNESS :: real where "SPRING_STIFFNESS = 25"
definition SPRING_DAMPING :: real where "SPRING_DAMPING = 8"
definition SCALE_STIFFNESS :: real where "SCALE_STIFFNESS = 30"
definition SCALE_DAMPING :: real where "SCALE_DAMPING = 10"

text \<open>
  A texture is the image loaded from a URL, or the canvas placeholder drawn for card
  \<open>i\<close> when loading failed.
\<close>

datatype texture = Loaded string | Fallback nat

record CardData =
  treePosition :: vec3
  galaxyPosition :: vec3
  position :: vec3
  velocity :: vec3
  scale :: real
  scaleVelocity :: real
  texture :: "texture option"
  textureUrl :: string
  time :: real

text \<open>The methods of \<open>THREE.Vector3\<close> that the frame callback uses.\<close>

definition sub :: "vec3 \<Rightarrow> vec3 \<Rightarrow> vec3" where
  "sub a b = (case (a, b) of ((ax, ay, az), (bx, by, bz)) \<Rightarrow> (ax - bx, ay - by, az - bz))"

definition add :: "vec3 \<Rightarrow> vec3 \<Rightarrow> vec3" where
  "add a b = (case (a, b) of ((ax, ay, az), (bx, by, bz)) \<Rightarrow> (ax + bx, ay + by, az + bz))"

definition multiplyScalar :: "vec3 \<Rightarrow> real \<Rightarrow> vec3" where
  "multiplyScalar a s = (case a of (ax, ay, az) \<Rightarrow> (ax * s, ay * s, az * s))"

text \<open>
  The body of the loop of the frame callback for one card (lines 272 to 298): the spring
  step on the card's own data.
\<close>

definition update_card :: "TreeState \<Rightarrow> bool \<Rightarrow> real \<Rightarrow> CardData \<Rightarrow> CardData" where
  "update_card state isFocused dt cardData =
     (let time' = time cardData + dt;
          targetPos = (if isFocused then (0, 0, 0.8)
                       else if state = Tree then treePosition cardData
                       else galaxyPosition cardData);
          targetScale = (if isFocused then 5 else 0.4);
          displacement = sub (position cardData) targetPos;
          springForce = multiplyScalar displacement (- SPRING_STIFFNESS);
          dampingForce = multiplyScalar (velocity cardData) (- SPRING_DAMPING);
          acceleration = add springForce dampingForce;
          velocity' = add (velocity cardData) (multiplyScalar acceleration dt);
          position' = add (position cardData) (multiplyScalar velocity' dt);
          scaleDisplacement = scale cardData - targetScale;
          scaleSpringForce = - SCALE_STIFFNESS * scaleDisplacement;
          scaleDampingForce = - SCALE_DAMPING * scaleVelocity cardData;
          scaleVelocity' = scaleVelocity cardData + (scaleSpringForce + scaleDampingForce) * dt;
          scale' = scale cardData + scaleVelocity' * dt
      in cardData\<lparr>time := time', velocity := velocity', position := position',
               scaleVelocity := scaleVelocity', scale := scale'\<rparr>)"

text \<open>
  The group of a card in the scene graph, as far as the callback writes it (lines 301 to
  305); the orientation set by \<open>lookAt\<close> belongs to the renderer.
\<close>

record mesh =
  mesh_position :: vec3
  mesh_scale :: vec3

definition apply_to_mesh :: "bool \<Rightarrow> CardData \<Rightarrow> mesh \<Rightarrow> mesh" where
  "apply_to_mesh isFocused cardData meshGroup =
     (let p = position cardData;
          p' = (if \<not> isFocused
                then (case p of (x, y, z) \<Rightarrow> (x, y + sin (time cardData * 0.5) * 0.005, z))
                else p)
      in meshGroup\<lparr>mesh_position := p', mesh_scale := (scale cardData, scale cardData, 1)\<rparr>)"

text \<open>
  The loop over the cards: \<open>k\<close> iterations are left, \<open>i\<close> is the loop index. An entry of
  \<open>meshRefs.current\<close> is absent past the end of the array and \<open>None\<close> when it is null; in
  both cases, and when the card is absent, the iteration is skipped.
\<close>

fun card_loop ::
  "TreeState \<Rightarrow> nat option \<Rightarrow> real \<Rightarrow> nat \<Rightarrow> nat \<Rightarrow> mesh option list \<Rightarrow> CardData list
   \<Rightarrow> mesh option list \<times> CardData list" where
  "card_loop state focusedIndex dt 0 i meshRefs cards = (meshRefs, cards)"
| "card_loop state focusedIndex dt (Suc k) i meshRefs cards =
     (case (at_index meshRefs i, at_index cards i) of
        (Some (Some meshGroup), Some cardData) \<Rightarrow>
          (let isFocused = (focusedIndex = Some i);
               cardData' = update_card state isFocused dt cardData
           in card_loop state focusedIndex dt k (Suc i)
                (meshRefs[i := Some (apply_to_mesh isFocused cardData' meshGroup)])
                (cards[i := cardData']))
      | _ \<Rightarrow> card_loop state focusedIndex dt k (Suc i) meshRefs cards)"

definition useFrame ::
  "TreeState \<Rightarrow> nat option \<Rightarrow> real \<Rightarrow> mesh option list \<Rightarrow> CardData list
   \<Rightarrow> mesh option list \<times> CardData list" where
  "useFrame state focusedIndex delta meshRefs cards =
     (let dt = min delta 0.033
      in card_loop state focusedIndex dt (length cards) 0 meshRefs cards)"

text \<open>
  The step of claim C6, in the words of the claim: on triples, componentwise.
\<close>

definition spec_dt :: "real \<Rightarrow> real" where
  "spec_dt delta = min delta 0.033"

definition spec_target :: "TreeState \<Rightarrow> bool \<Rightarrow> CardData \<Rightarrow> vec3" where
  "spec_target mode focused cardData =
     (if focused then (0, 0, 0.8)
      else if mode = Tree then treePosition cardData
      else galaxyPosition cardData)"

definition spec_targetScale :: "bool \<Rightarrow> real" where
  "spec_targetScale focused = (if focused then 5 else 0.4)"

definition spec_velocity :: "vec3 \<Rightarrow> vec3 \<Rightarrow> vec3 \<Rightarrow> real \<Rightarrow> vec3" where
  "spec_velocity p v target dt =
     (case (p, v, target) of
        ((p1, p2, p3), (v1, v2, v3), (t1, t2, t3)) \<Rightarrow>
          (v1 + (- 25 * (p1 - t1) - 8 * v1) * dt,
           v2 + (- 25 * (p2 - t2) - 8 * v2) * dt,
           v3 + (- 25 * (p3 - t3) - 8 * v3) * dt))"

definition spec_position :: "vec3 \<Rightarrow> vec3 \<Rightarrow> real \<Rightarrow> vec3" where
  "spec_position p v' dt =
     (case (p, v') of ((p1, p2, p3), (v1, v2, v3)) \<Rightarrow> (p1 + v1 * dt, p2 + v2 * dt, p3 + v3 * dt))"

definition spec_scaleVelocity :: "real \<Rightarrow> real \<Rightarrow> real \<Rightarrow> real \<Rightarrow> real" where
  "spec_scaleVelocity s sv targetScale dt = sv + (- 30 * (s - targetScale) - 10 * sv) * dt"

definition spec_scale :: "real \<Rightarrow> real \<Rightarrow> real \<Rightarrow> real" where
  "spec_scale s sv' dt = s + sv' * dt"

text \<open>Whether \<open>meshRefs.current[i]\<close> holds a group.\<close>

definition mesh_present :: "mesh option list \<Rightarrow> nat \<Rightarrow> bool" where
  "mesh_present meshRefs i = (case at_index meshRefs i of Some (Some meshGroup) \<Rightarrow> True | _ \<Rightarrow> False)"

















text \<open>A card and a group used as concrete inputs.\<close>

definition resting_card :: CardData where
  "resting_card =
     \<lparr>treePosition = (0, 0, 0), galaxyPosition = (0, 4, 0), position = (1, 0, 0),
      velocity = (0, 0, 0), scale = 0.4, scaleVelocity = 0, texture = None,
      textureUrl = ''a.png'', time = 0\<rparr>"

definition some_mesh :: mesh where
  "some_mesh = \<lparr>mesh_position = (0, 0, 0), mesh_scale = (0.4, 0.4, 1)\<rparr>"



section \<open>The main particle system (ParticleSystem)\<close>

















section \<open>Properties of the gesture classifier and the tick handler\<close>

lemmas gesture_defs = detectGesture_def calculateFingerDistance_def tip_above_def

lemma entry_points: "i < length lm \<Longrightarrow> entry (points lm) i = Some (lm ! i)"
  by (simp add: entry_def at_index_def points_def)

lemma entry_Some: "i < length lm \<Longrightarrow> lm ! i = Some p \<Longrightarrow> entry lm i = Some p"
  by (simp add: entry_def at_index_def)

lemma entry_null: "lm ! i = None \<Longrightarrow> entry lm i = None"
  by (simp add: entry_def at_index_def)

lemma length_points: "length (points lm) = length lm"
  by (simp add: points_def)

lemma detectGesture_never_pointing: "detectGesture landmarks \<noteq> Inr Pointing"
  by (auto simp: gesture_defs Let_def split: option.splits sum.splits)

text \<open>
  Claim C1 asks for \<open>pointing\<close> on a frame that is no pinch and has exactly the index
  finger extended. The source tests \<open>extendedCount <= 1\<close> before its pointing branch, so
  such a frame (21 landmarks, thumb tip at distance 1 from the index tip, index tip above
  its knuckle, the other three tips not above theirs) classifies as \<open>fist\<close>.
\<close>
theorem index_only_frame_classifies_fist:
  "length index_only_frame = 21
   \<and> \<not> euclidean_distance (index_only_frame ! 4) (index_only_frame ! 8) < 0.06
   \<and> py (index_only_frame ! 8) < py (index_only_frame ! 5)
   \<and> \<not> py (index_only_frame ! 12) < py (index_only_frame ! 9)
   \<and> \<not> py (index_only_frame ! 16) < py (index_only_frame ! 13)
   \<and> \<not> py (index_only_frame ! 20) < py (index_only_frame ! 17)
   \<and> detectGesture (Some (points index_only_frame)) = Inr Fist"
  by (simp add: gesture_defs entry_points length_points index_only_frame_def origin_def
        euclidean_distance_def)

text \<open>What the classifier does on a frame that is no pinch: \<open>pointing\<close> is never returned.\<close>

lemma detectGesture_finger_pattern:
  assumes "21 \<le> length lm" and "\<not> euclidean_distance (lm ! 4) (lm ! 8) < 0.06"
  shows "detectGesture (Some (points lm)) =
           Inr (if 3 \<le> extendedCount lm then Open
                else if extendedCount lm \<le> 1 then Fist else GNone)"
  using assms
  by (auto simp: gesture_defs entry_points length_points euclidean_distance_def
        extendedCount_def Let_def)

text \<open>
  Claim C3, pinch precedence: a frame of at least 21 entries whose thumb tip (landmark 4)
  is at Euclidean distance below 0.06 from the index tip (landmark 8) classifies as
  \<open>pinch\<close>, whatever the other entries are.
\<close>
theorem pinch_precedence:
  "21 \<le> length lm \<Longrightarrow> lm ! 4 = Some thumbTip \<Longrightarrow> lm ! 8 = Some indexTip \<Longrightarrow>
   euclidean_distance thumbTip indexTip < 0.06 \<Longrightarrow>
   detectGesture (Some lm) = Inr Pinch"
  by (simp add: gesture_defs entry_Some euclidean_distance_def)

theorem pinch_precedence_witness:
  "21 \<le> length (points open_pinch_frame)
   \<and> points open_pinch_frame ! 4 = Some (open_pinch_frame ! 4)
   \<and> points open_pinch_frame ! 8 = Some (open_pinch_frame ! 8)
   \<and> euclidean_distance (open_pinch_frame ! 4) (open_pinch_frame ! 8) < 0.06
   \<and> extendedCount open_pinch_frame = 4
   \<and> detectGesture (Some (points open_pinch_frame)) = Inr Pinch"
proof -
  have len: "21 \<le> length (points open_pinch_frame)"
    by (simp add: open_pinch_frame_def points_def)
  have thumb: "points open_pinch_frame ! 4 = Some (open_pinch_frame ! 4)"
    and index: "points open_pinch_frame ! 8 = Some (open_pinch_frame ! 8)"
    by (simp_all add: open_pinch_frame_def points_def)
  have near: "euclidean_distance (open_pinch_frame ! 4) (open_pinch_frame ! 8) < 0.06"
    by (simp add: open_pinch_frame_def origin_def euclidean_distance_def)
  have "extendedCount open_pinch_frame = 4"
    by (simp add: open_pinch_frame_def origin_def extendedCount_def)
  with len thumb index near pinch_precedence [OF len thumb index near] show ?thesis by simp
qed

text \<open>
  Claim C4 as stated fails: the classifier does not check the entries of a frame. On a
  frame of 21 entries that are all \<open>null\<close> the length guard passes and the first read,
  \<open>p1.x\<close> of landmark 4, raises a TypeError.
\<close>
theorem null_entries_raise:
  "length (replicate 21 (None :: landmark option)) = 21
   \<and> detectGesture (Some (replicate 21 None)) = Inl TypeError
   \<and> \<not> (\<exists>g. detectGesture (Some (replicate 21 None)) = Inr g)"
  by (simp add: gesture_defs entry_def at_index_def)

lemma readable_entry:
  assumes "readable (Some lm)" and "i \<in> set read_indices"
  shows "\<exists>p. entry lm i = Some p"
  using assms by (auto simp: readable_def list_all_iff)

text \<open>
  Claim C4, amended: on a missing frame and on a frame of fewer than 21 entries the
  classifier returns \<open>none\<close>; on every frame in which the entries it reads (indices 4,
  5, 8, 9, 12, 13, 16, 17 and 20) are landmarks, and so on every frame of landmarks, it
  returns a gesture and does not raise.
\<close>
theorem degenerate_frame_is_none:
  "(degenerate landmarks \<longrightarrow> detectGesture landmarks = Inr GNone)
   \<and> (readable landmarks \<longrightarrow> (\<exists>g. detectGesture landmarks = Inr g))
   \<and> (\<exists>g. detectGesture (Some (points frame)) = Inr g)"
proof -
  have none: "degenerate landmarks \<longrightarrow> detectGesture landmarks = Inr GNone"
    by (auto simp: detectGesture_def degenerate_def split: option.splits)
  have ok: "\<exists>g. detectGesture f = Inr g" if r: "readable f" for f
  proof (cases f)
    case None
    then show ?thesis by (simp add: detectGesture_def)
  next
    case (Some lm)
    with r have rd: "readable (Some lm)" by simp
    have "\<exists>p. entry lm i = Some p" if "i \<in> set read_indices" for i
      using readable_entry [OF rd that] .
    then obtain p4 p8 p5 p9 p12 p13 p16 p17 p20 where
      "entry lm 4 = Some p4" "entry lm 8 = Some p8" "entry lm 5 = Some p5"
      "entry lm 9 = Some p9" "entry lm 12 = Some p12" "entry lm 13 = Some p13"
      "entry lm 16 = Some p16" "entry lm 17 = Some p17" "entry lm 20 = Some p20"
      unfolding read_indices_def by (metis list.set_intros)
    with Some show ?thesis
      by (simp add: gesture_defs Let_def)
  qed
  have "readable (Some (points frame)) \<or> degenerate (Some (points frame))"
    by (auto simp: readable_def degenerate_def read_indices_def entry_points length_points)
  with none ok [of landmarks] ok [of "Some (points frame)"] show ?thesis
    by (auto simp: detectGesture_def degenerate_def)
qed

theorem degenerate_frame_is_none_witness:
  "degenerate (Some (replicate 20 None))
   \<and> detectGesture (Some (replicate 20 None)) = Inr GNone
   \<and> degenerate None \<and> detectGesture None = Inr GNone
   \<and> readable (Some (points closed_hand_frame))
   \<and> detectGesture (Some (points closed_hand_frame)) = Inr Fist"
proof -
  have r: "readable (Some (points closed_hand_frame))"
    by (simp add: readable_def read_indices_def entry_points closed_hand_frame_def)
  have "detectGesture (Some (points closed_hand_frame)) = Inr Fist"
    by (simp add: gesture_defs entry_points length_points closed_hand_frame_def origin_def)
  with r degenerate_frame_is_none [of "Some (replicate 20 None)"]
    degenerate_frame_is_none [of None]
    degenerate_frame_is_none [of "Some (points closed_hand_frame)"]
  show ?thesis
    by (simp add: degenerate_def)
qed

lemma onResults_tracked:
  assumes "onResults cb h res = Inr h'" and "frame_gesture res = Some g"
  shows "lastGestureRef h' = g \<and> gesture (hook_state h') = g
         \<and> calls h' = (if g \<noteq> lastGestureRef h \<and> cb then calls h @ [g] else calls h)"
  using assms
  by (auto simp: onResults_def frame_gesture_def Let_def
           split: option.splits list.splits sum.splits if_splits)

lemma onResults_untracked:
  assumes "onResults cb h res = Inr h'" and "frame_gesture res = None"
  shows "lastGestureRef h' = lastGestureRef h \<and> gesture (hook_state h') = gesture (hook_state h)
         \<and> calls h' = calls h"
  using assms
  by (auto simp: onResults_def frame_gesture_def Let_def
           split: option.splits list.splits sum.splits if_splits)

lemma onResults_ref_published:
  assumes "onResults cb h res = Inr h'" and "lastGestureRef h = gesture (hook_state h)"
  shows "lastGestureRef h' = gesture (hook_state h')"
proof (cases "frame_gesture res")
  case None
  with assms onResults_untracked [OF assms(1)] show ?thesis by simp
next
  case (Some g)
  with onResults_tracked [OF assms(1)] show ?thesis by simp
qed

lemma onResults_all_ref_published:
  "lastGestureRef h = gesture (hook_state h) \<Longrightarrow>
   lastGestureRef (onResults_all cb h rs) = gesture (hook_state (onResults_all cb h rs))"
proof (induction rs arbitrary: h)
  case Nil
  then show ?case by simp
next
  case (Cons res rest)
  show ?case
  proof (cases "onResults cb h res")
    case (Inl e)
    with Cons show ?thesis by simp
  next
    case (Inr h')
    with Cons.prems have "lastGestureRef h' = gesture (hook_state h')"
      by (simp add: onResults_ref_published)
    with Cons.IH [of h'] Inr show ?thesis by simp
  qed
qed

lemma held_gesture_silent:
  "\<forall>res \<in> set rs. frame_gesture res = Some g \<Longrightarrow> lastGestureRef h = g \<Longrightarrow>
   calls (onResults_all cb h rs) = calls h"
proof (induction rs arbitrary: h)
  case Nil
  then show ?case by simp
next
  case (Cons res rest)
  have fg: "frame_gesture res = Some g" using Cons.prems by simp
  show ?case
  proof (cases "onResults cb h res")
    case (Inl e)
    with Cons show ?thesis by simp
  next
    case (Inr h')
    from onResults_tracked [OF Inr fg] Cons.prems
    have "lastGestureRef h' = g" and "calls h' = calls h" by simp_all
    with Cons.IH [of h'] Cons.prems Inr show ?thesis by simp
  qed
qed

lemma held_gesture_at_most_once:
  "\<forall>res \<in> set rs. frame_gesture res = Some g \<Longrightarrow>
   length (calls (onResults_all cb h rs)) \<le> length (calls h) + 1"
proof (induction rs arbitrary: h)
  case Nil
  then show ?case by simp
next
  case (Cons res rest)
  have fg: "frame_gesture res = Some g" using Cons.prems by simp
  show ?case
  proof (cases "onResults cb h res")
    case (Inl e)
    with Cons show ?thesis by simp
  next
    case (Inr h')
    from onResults_tracked [OF Inr fg]
    have ref: "lastGestureRef h' = g" and len: "length (calls h') \<le> length (calls h) + 1"
      by simp_all
    have "calls (onResults_all cb h' rest) = calls h'"
      using held_gesture_silent [of rest g h' cb] Cons.prems ref by simp
    with len Inr show ?thesis by simp
  qed
qed

lemma fire_only_on_change:
  assumes "onResults cb h res = Inr h'" and "calls h' \<noteq> calls h"
  shows "\<exists>g. frame_gesture res = Some g \<and> g \<noteq> lastGestureRef h \<and> calls h' = calls h @ [g]"
proof (cases "frame_gesture res")
  case None
  with onResults_untracked [OF assms(1)] assms(2) show ?thesis by simp
next
  case (Some g)
  with onResults_tracked [OF assms(1) Some] assms(2) show ?thesis by (simp split: if_splits)
qed

text \<open>
  Claim C7, edge triggering. At any point of a stream of ticks, a tick calls
  \<open>onGestureChange\<close> only when its frame is tracked and classifies as a gesture that
  differs from the gesture published before it, and the call passes that gesture; over a
  run of consecutive tracked frames that all classify as the same gesture the callback is
  called at most once.
\<close>
theorem gesture_callback_edge_triggered:
  assumes "h = onResults_all cb initial_hook earlier"
  shows "(onResults cb h res = Inr h' \<and> calls h' \<noteq> calls h \<longrightarrow>
            (\<exists>g. frame_gesture res = Some g \<and> g \<noteq> gesture (hook_state h)
                 \<and> calls h' = calls h @ [g]))
         \<and> ((\<forall>r \<in> set rs. frame_gesture r = Some held) \<longrightarrow>
              length (calls (onResults_all cb h rs)) \<le> length (calls h) + 1)"
proof -
  have "lastGestureRef h = gesture (hook_state h)"
    unfolding assms by (rule onResults_all_ref_published) (simp add: initial_hook_def)
  then show ?thesis
    using fire_only_on_change [of cb h res h'] held_gesture_at_most_once [of rs held cb h]
    by auto
qed

lemma frame_gesture_closed_hand: "frame_gesture (tracked (points closed_hand_frame)) = Some Fist"
  by (simp add: frame_gesture_def tracked_def gesture_defs entry_points length_points
        closed_hand_frame_def origin_def)

lemma onResults_closed_hand:
  "onResults True initial_hook (tracked (points closed_hand_frame)) =
     Inr \<lparr>hook_state = \<lparr>gesture = Fist, handPosition = Some (1, 0), pinchDistance = 1, isTracking = True\<rparr>,
          lastGestureRef = Fist, calls = [Fist]\<rparr>"
  by (simp add: onResults_def tracked_def gesture_defs entry_points length_points
        closed_hand_frame_def origin_def initial_hook_def)

theorem gesture_callback_edge_triggered_witness:
  "frame_gesture (tracked (points closed_hand_frame)) = Some Fist
   \<and> length (calls (onResults_all True initial_hook (replicate 3 (tracked (points closed_hand_frame))))) \<le> 1
   \<and> (\<exists>h'. onResults True initial_hook (tracked (points closed_hand_frame)) = Inr h'
            \<and> calls h' \<noteq> calls initial_hook
            \<and> Fist \<noteq> gesture (hook_state initial_hook) \<and> calls h' = [Fist])"
proof -
  have held: "\<forall>r \<in> set (replicate 3 (tracked (points closed_hand_frame))). frame_gesture r = Some Fist"
    by (simp add: frame_gesture_closed_hand)
  have start: "initial_hook = onResults_all True initial_hook []" by simp
  have "calls initial_hook = []" by (simp add: initial_hook_def)
  with held onResults_closed_hand frame_gesture_closed_hand
    gesture_callback_edge_triggered [OF start,
      of "tracked (points closed_hand_frame)" _ "replicate 3 (tracked (points closed_hand_frame))" Fist]
  show ?thesis by (auto simp: initial_hook_def)
qed

text \<open>
  Claim C10: a results frame without a detected hand (no list of hands, or an empty one)
  leaves the published gesture and pinch distance as they were, sets \<open>isTracking\<close> to
  false and \<open>handPosition\<close> to null, and neither writes the last-gesture ref nor calls
  the callback.
\<close>
theorem no_hand_keeps_gesture:
  assumes "multiHandLandmarks res = None \<or> multiHandLandmarks res = Some []"
  shows "\<exists>h'. onResults cb h res = Inr h'
           \<and> gesture (hook_state h') = gesture (hook_state h)
           \<and> pinchDistance (hook_state h') = pinchDistance (hook_state h)
           \<and> isTracking (hook_state h') = False
           \<and> handPosition (hook_state h') = None
           \<and> lastGestureRef h' = lastGestureRef h
           \<and> calls h' = calls h"
  using assms by (auto simp: onResults_def)

theorem no_hand_keeps_gesture_witness:
  "multiHandLandmarks no_hand = Some []
   \<and> gesture (hook_state (onResults_all True initial_hook [tracked (points closed_hand_frame)])) = Fist
   \<and> isTracking (hook_state (onResults_all True initial_hook [tracked (points closed_hand_frame)]))
   \<and> gesture (hook_state (onResults_all True initial_hook [tracked (points closed_hand_frame), no_hand])) = Fist
   \<and> \<not> isTracking (hook_state (onResults_all True initial_hook [tracked (points closed_hand_frame), no_hand]))"
proof -
  have empty: "multiHandLandmarks no_hand = None \<or> multiHandLandmarks no_hand = Some []"
    by (simp add: no_hand_def)
  from no_hand_keeps_gesture [OF empty, of True "onResults_all True initial_hook [tracked (points closed_hand_frame)]"]
  show ?thesis
    by (auto simp: onResults_closed_hand no_hand_def)
qed

section \<open>Properties of the pointer fallback\<close>

lemmas press_defs = handleMouseDown_def handleTouchStart_def press_at_def

lemma handlePress_double:
  assumes "enabled" and "single p" and "now - lastClickRef fb < 300"
  shows "handlePress enabled currentState now p fb =
           (fb\<lparr>lastClickRef := 0\<rparr>, Some (if currentState = Tree then Galaxy else Tree))"
  using assms by (cases p) (simp_all add: press_defs)

lemma handlePress_first:
  assumes "enabled" and "single p" and "\<not> now - lastClickRef fb < 300"
  shows "lastClickRef (fst (handlePress enabled currentState now p fb)) = now
         \<and> snd (handlePress enabled currentState now p fb) = None"
  using assms by (cases p) (simp_all add: press_defs)

text \<open>
  Claim C9 as stated fails: a press that toggles resets \<open>lastClickRef\<close> to 0, so a third
  press 100 ms after it finds no recent press and leaves the mode as it is. Presses at
  1000, 1100 and 1200 ms, starting in tree mode: the second toggles to galaxy, the third,
  less than 300 ms after the second, does not toggle back.
\<close>
theorem third_rapid_press_does_not_toggle:
  "(1200::int) - 1100 < 300
   \<and> fst (presses True [(1000, MouseDown (0, 0)), (1100, MouseDown (0, 0))] (Tree, initial_fallback)) = Galaxy
   \<and> fst (presses True [(1000, MouseDown (0, 0)), (1100, MouseDown (0, 0)), (1200, MouseDown (0, 0))]
        (Tree, initial_fallback)) = Galaxy
   \<and> snd (handleMouseDown True Galaxy 1200 (0, 0)
          (snd (presses True [(1000, MouseDown (0, 0)), (1100, MouseDown (0, 0))]
             (Tree, initial_fallback)))) = None"
  by (simp add: press_defs initial_fallback_def)

text \<open>
  Claim C9, amended: with the fallback enabled, a mouse-down or single-touch-start that
  arrives less than 300 ms after a previous press which was not itself the second press
  of a double press calls \<open>onStateChange\<close> with the toggled mode, so that tree becomes
  galaxy and galaxy (or focus) becomes tree; the first of the two presses leaves the mode
  alone. The press that toggles resets the timer to 0, so the press after it, at any clock
  value of at least 300 ms and however soon, does not toggle: it calls nothing, leaves
  the mode alone and starts a new sequence. No gesture is an input of the handlers.
\<close>
theorem double_press_toggles:
  assumes "enabled" and "single p" and "single q"
    and "\<not> t - lastClickRef fb < 300" and "now - t < 300"
  shows "fst (press_at enabled (t, p) (m, fb)) = m
         \<and> fst (press_at enabled (now, q) (press_at enabled (t, p) (m, fb)))
             = (if m = Tree then Galaxy else Tree)
         \<and> snd (handlePress enabled m now q (snd (press_at enabled (t, p) (m, fb))))
             = Some (if m = Tree then Galaxy else Tree)
         \<and> lastClickRef (snd (press_at enabled (now, q) (press_at enabled (t, p) (m, fb)))) = 0
         \<and> (single r \<and> 300 \<le> later \<longrightarrow>
              snd (handlePress enabled (if m = Tree then Galaxy else Tree) later r
                     (snd (press_at enabled (now, q) (press_at enabled (t, p) (m, fb))))) = None
              \<and> fst (press_at enabled (later, r)
                       (press_at enabled (now, q) (press_at enabled (t, p) (m, fb))))
                  = (if m = Tree then Galaxy else Tree)
              \<and> lastClickRef (snd (press_at enabled (later, r)
                       (press_at enabled (now, q) (press_at enabled (t, p) (m, fb))))) = later)"
proof -
  let ?s = "press_at enabled (t, p) (m, fb)"
  let ?s2 = "press_at enabled (now, q) ?s"
  let ?m' = "if m = Tree then Galaxy else Tree"
  from handlePress_first [OF assms(1,2,4), of m]
  have first: "fst ?s = m" "lastClickRef (snd ?s) = t"
    by (auto simp: press_at_def split: prod.splits option.splits)
  with assms(5) have "now - lastClickRef (snd ?s) < 300" by simp
  from handlePress_double [OF assms(1,3) this, of m] first
  have second: "fst ?s2 = ?m'" "lastClickRef (snd ?s2) = 0"
    "snd (handlePress enabled m now q (snd ?s)) = Some ?m'"
    by (simp_all add: press_at_def)
  have third: "snd (handlePress enabled ?m' later r (snd ?s2)) = None
               \<and> fst (press_at enabled (later, r) ?s2) = ?m'
               \<and> lastClickRef (snd (press_at enabled (later, r) ?s2)) = later"
    if "single r" and "300 \<le> later"
  proof -
    from that(2) second(2) have "\<not> later - lastClickRef (snd ?s2) < 300" by simp
    from handlePress_first [OF assms(1) that(1) this, of "fst ?s2"] second(1)
    show ?thesis
      by (auto simp: press_at_def split: prod.splits option.splits)
  qed
  from first(1) second third show ?thesis by blast
qed

theorem double_press_toggles_witness:
  "single (MouseDown (3, 4)) \<and> single (TouchStart [(3, 4)])
   \<and> \<not> (1000::int) - lastClickRef initial_fallback < 300 \<and> (1100::int) - 1000 < 300
   \<and> (300::int) \<le> 1150
   \<and> fst (presses True [(1000, MouseDown (3, 4)), (1100, TouchStart [(3, 4)])] (Tree, initial_fallback)) = Galaxy
   \<and> fst (presses True [(1000, MouseDown (3, 4)), (1100, TouchStart [(3, 4)])] (Galaxy, initial_fallback)) = Tree
   \<and> presses True [(1000, MouseDown (3, 4)), (1100, TouchStart [(3, 4)]), (1150, MouseDown (3, 4))]
         (Tree, initial_fallback)
       = (Galaxy, \<lparr>isDragging = True, lastClickRef = 1150, dragStartRef = (3, 4)\<rparr>)"
proof -
  have a: "single (MouseDown (3, 4))" and b: "single (TouchStart [(3, 4)])" by simp_all
  have c: "\<not> (1000::int) - lastClickRef initial_fallback < 300" by (simp add: initial_fallback_def)
  have d: "(1100::int) - 1000 < 300" by simp
  have e: "(300::int) \<le> 1150" by simp
  have "presses True [(1000, MouseDown (3, 4)), (1100, TouchStart [(3, 4)]), (1150, MouseDown (3, 4))]
          (Tree, initial_fallback)
        = (Galaxy, \<lparr>isDragging = True, lastClickRef = 1150, dragStartRef = (3, 4)\<rparr>)"
    by (simp add: press_defs initial_fallback_def)
  with double_press_toggles [OF TrueI a b c d, of Tree "MouseDown (3, 4)" 1150]
    double_press_toggles [OF TrueI a b c d, of Galaxy "MouseDown (3, 4)" 1150]
  show ?thesis using a b c d e by simp
qed

section \<open>Properties of the formation generators\<close>

lemma draws_unit: "unit_draws (draws [0, 0.25, 0.5])"
  by (simp add: unit_draws_def draws_def nth_Cons split: nat.splits)

lemma galaxy_quarter_turn: "fst (generateGalaxyPosition (draws [0, 0.25, 0.5])) = (0, 2.5, 0)"
  by (simp add: generateGalaxyPosition_def Math_random_def draws_def Let_def)

text \<open>
  Claim C2 as stated fails: the generator draws its angle and its radius variation from
  \<open>Math.random()\<close>. Two calls in a row with index 0 and total 1, where the generator
  yields 0, 0, 0.5, 0, return two different positions.
\<close>
theorem tree_position_differs_between_calls:
  "fst (generateTreePosition 0 1 (draws [0, 0, 0.5, 0])) = (2.45, - 4, 0)
   \<and> fst (generateTreePosition 0 1 (snd (generateTreePosition 0 1 (draws [0, 0, 0.5, 0]))))
       = (- 2.45, - 4, 0)
   \<and> fst (generateTreePosition 0 1 (draws [0, 0, 0.5, 0]))
       \<noteq> fst (generateTreePosition 0 1 (snd (generateTreePosition 0 1 (draws [0, 0, 0.5, 0]))))"
  by (simp add: generateTreePosition_def Math_random_def draws_def Let_def)

text \<open>
  Claim C2, amended: for a total above 0, the height (y) of a tree position is determined
  by (index, total) alone, and the whole position by (index, total) and the two values the
  call draws from \<open>Math.random()\<close>: two calls with identical (index, total) that draw
  the same two values yield identical positions.
\<close>
theorem tree_position_determined_by_draws:
  assumes "0 < total'"
  shows "fst (snd (fst (generateTreePosition index total' g)))
           = fst (snd (fst (generateTreePosition index total' g')))
         \<and> (g 0 = g' 0 \<and> g 1 = g' 1 \<longrightarrow>
              fst (generateTreePosition index total' g) = fst (generateTreePosition index total' g'))"
  by (simp add: generateTreePosition_def Math_random_def Let_def)

theorem tree_position_determined_by_draws_witness:
  "(0::nat) < 1
   \<and> draws [0.5, 0, 0.25] 0 = draws [0.5, 0, 0.75] 0 \<and> draws [0.5, 0, 0.25] 1 = draws [0.5, 0, 0.75] 1
   \<and> draws [0.5, 0, 0.25] 2 \<noteq> draws [0.5, 0, 0.75] 2
   \<and> fst (generateTreePosition 0 1 (draws [0.5, 0, 0.25])) = (- 2.45, - 4, 0)
   \<and> fst (generateTreePosition 0 1 (draws [0.5, 0, 0.75])) = (- 2.45, - 4, 0)"
  using tree_position_determined_by_draws [of 1 0 "draws [0.5, 0, 0.25]" "draws [0.5, 0, 0.75]"]
  by (simp add: generateTreePosition_def Math_random_def draws_def Let_def)

text \<open>
  Claim C8 as stated fails: the compression of y by 0.5 is applied after the radius is
  chosen, so a returned point can be nearer to the origin than the inner radius 5. With
  the draws 0, 0.25, 0.5 (radius 5, both angles a quarter turn) the point is (0, 2.5, 0).
\<close>
theorem galaxy_position_inside_inner_radius:
  "unit_draws (draws [0, 0.25, 0.5])
   \<and> norm3 (fst (generateGalaxyPosition (draws [0, 0.25, 0.5]))) = 2.5
   \<and> \<not> 5 \<le> norm3 (fst (generateGalaxyPosition (draws [0, 0.25, 0.5])))"
proof -
  have "norm3 (fst (generateGalaxyPosition (draws [0, 0.25, 0.5]))) = norm3 (0, 2.5, 0)"
    by (simp only: galaxy_quarter_turn)
  also have "\<dots> = 2.5"
    by (simp add: norm3_def)
  finally show ?thesis
    using draws_unit by simp
qed

lemma shell_identity:
  fixes r s c s' c' :: real
  shows "(r * s * c)\<^sup>2 + (r * s * s' * 0.5 / 0.5)\<^sup>2 + (r * c')\<^sup>2
           = r\<^sup>2 * (s\<^sup>2 * (c\<^sup>2 + s'\<^sup>2) + c'\<^sup>2)"
  by (simp add: power2_eq_square algebra_simps)

lemma galaxy_uncompressed_norm:
  assumes "0 \<le> g 0"
  shows "norm3 (uncompressed (fst (generateGalaxyPosition g))) = 5 + g 0 * 10"
proof -
  let ?r = "5 + g 0 * 10" and ?theta = "g 1 * pi * 2" and ?phi = "arccos (2 * g 2 - 1)"
  have "norm3 (uncompressed (fst (generateGalaxyPosition g)))
          = sqrt ((?r * sin ?phi * cos ?theta)\<^sup>2 + (?r * sin ?phi * sin ?theta * 0.5 / 0.5)\<^sup>2
                  + (?r * cos ?phi)\<^sup>2)"
    by (simp add: generateGalaxyPosition_def Math_random_def Let_def norm3_def uncompressed_def
                  numeral_2_eq_2)
  also have "\<dots> = sqrt (?r\<^sup>2 * ((sin ?phi)\<^sup>2 * ((cos ?theta)\<^sup>2 + (sin ?theta)\<^sup>2) + (cos ?phi)\<^sup>2))"
    by (simp only: shell_identity)
  also have "\<dots> = sqrt (?r\<^sup>2)"
    by (simp only: sin_cos_squared_add sin_cos_squared_add2 mult_1_right)
  also have "\<dots> = ?r"
    using assms by simp
  finally show ?thesis .
qed

lemma norm3_compression:
  "norm3 (x, y, z) \<le> norm3 (uncompressed (x, y, z))
   \<and> norm3 (uncompressed (x, y, z)) \<le> 2 * norm3 (x, y, z)"
proof -
  have le: "x\<^sup>2 + y\<^sup>2 + z\<^sup>2 \<le> x\<^sup>2 + (y / 0.5)\<^sup>2 + z\<^sup>2"
    by (simp add: power2_eq_square)
  have "x\<^sup>2 + (y / 0.5)\<^sup>2 + z\<^sup>2 \<le> 4 * (x\<^sup>2 + y\<^sup>2 + z\<^sup>2)"
    by (simp add: power2_eq_square)
  then have "sqrt (x\<^sup>2 + (y / 0.5)\<^sup>2 + z\<^sup>2) \<le> sqrt (4 * (x\<^sup>2 + y\<^sup>2 + z\<^sup>2))"
    by (rule real_sqrt_le_mono)
  also have "\<dots> = sqrt 4 * sqrt (x\<^sup>2 + y\<^sup>2 + z\<^sup>2)"
    by (rule real_sqrt_mult)
  also have "\<dots> = 2 * sqrt (x\<^sup>2 + y\<^sup>2 + z\<^sup>2)"
    by simp
  finally show ?thesis
    using le by (simp add: norm3_def uncompressed_def)
qed

text \<open>
  Claim C8, amended: for draws in the unit interval, every point returned by the
  galaxy-position generator is a point of the shell between the radii 5 and 15 with its
  y component multiplied by 0.5: with the compression undone its distance from the origin
  is at least 5 and below 15, and the returned point itself is at a distance of at least
  2.5 and below 15.
\<close>
theorem galaxy_position_in_compressed_shell:
  assumes "unit_draws g"
  shows "5 \<le> norm3 (uncompressed (fst (generateGalaxyPosition g)))
         \<and> norm3 (uncompressed (fst (generateGalaxyPosition g))) < 15
         \<and> 2.5 \<le> norm3 (fst (generateGalaxyPosition g))
         \<and> norm3 (fst (generateGalaxyPosition g)) < 15"
proof -
  from assms have r: "0 \<le> g 0" "g 0 < 1" by (simp_all add: unit_draws_def)
  obtain x y z where p: "fst (generateGalaxyPosition g) = (x, y, z)"
    by (cases "fst (generateGalaxyPosition g)") auto
  from galaxy_uncompressed_norm [of g] r(1) p
  have u: "norm3 (uncompressed (x, y, z)) = 5 + g 0 * 10" by simp
  with norm3_compression [of x y z] r p show ?thesis by simp
qed

theorem galaxy_position_in_compressed_shell_witness:
  "unit_draws (draws [0, 0.25, 0.5])
   \<and> norm3 (uncompressed (fst (generateGalaxyPosition (draws [0, 0.25, 0.5])))) = 5
   \<and> 2.5 \<le> norm3 (fst (generateGalaxyPosition (draws [0, 0.25, 0.5])))
   \<and> norm3 (fst (generateGalaxyPosition (draws [0, 0.25, 0.5]))) < 15"
proof -
  have "norm3 (uncompressed (fst (generateGalaxyPosition (draws [0, 0.25, 0.5]))))
          = norm3 (uncompressed (0, 2.5, 0))"
    by (simp only: galaxy_quarter_turn)
  also have "\<dots> = 5"
    by (simp add: norm3_def uncompressed_def)
  finally show ?thesis
    using galaxy_position_in_compressed_shell [OF draws_unit] draws_unit by simp
qed

section \<open>Properties of the photo cards\<close>

lemma mesh_present_update:
  "mesh_present (meshRefs[i := Some m]) j = (if j = i then i < length meshRefs else mesh_present meshRefs j)"
  by (auto simp: mesh_present_def at_index_def)


lemma card_loop_nth:
  "j < length cs \<Longrightarrow>
   snd (card_loop st f dt k i ms cs) ! j =
     (if i \<le> j \<and> j < i + k \<and> mesh_present ms j
      then update_card st (f = Some j) dt (cs ! j) else cs ! j)"
proof (induction k arbitrary: i ms cs)
  case 0
  then show ?case by auto
next
  case (Suc k)
  show ?case
  proof (cases "mesh_present ms i \<and> i < length cs")
    case True
    then obtain m where m: "at_index ms i = Some (Some m)" and c: "at_index cs i = Some (cs ! i)"
      by (auto simp: mesh_present_def at_index_def split: option.splits)
    let ?c' = "update_card st (f = Some i) dt (cs ! i)"
    let ?ms' = "ms[i := Some (apply_to_mesh (f = Some i) ?c' m)]"
    have step: "card_loop st f dt (Suc k) i ms cs = card_loop st f dt k (Suc i) ?ms' (cs[i := ?c'])"
      using m c by (simp add: Let_def)
    have il: "i < length ms" using m by (auto simp: at_index_def split: if_splits)
    from Suc.IH [of "cs[i := ?c']" "Suc i" ?ms'] Suc.prems
    have "snd (card_loop st f dt k (Suc i) ?ms' (cs[i := ?c'])) ! j =
            (if Suc i \<le> j \<and> j < Suc i + k \<and> mesh_present ?ms' j
             then update_card st (f = Some j) dt (cs[i := ?c'] ! j) else cs[i := ?c'] ! j)"
      by simp
    with step True il Suc.prems show ?thesis
      by (cases "j = i") (auto simp: mesh_present_update)
  next
    case False
    then have step: "card_loop st f dt (Suc k) i ms cs = card_loop st f dt k (Suc i) ms cs"
      by (auto simp: mesh_present_def at_index_def split: option.splits)
    from Suc.IH [of cs "Suc i" ms] Suc.prems False step show ?thesis
      by (cases "j = i") auto
  qed
qed

lemma useFrame_nth:
  assumes "i < length cards"
  shows "snd (useFrame state focusedIndex delta meshRefs cards) ! i =
           (if mesh_present meshRefs i
            then update_card state (focusedIndex = Some i) (min delta 0.033) (cards ! i)
            else cards ! i)"
  using assms by (simp add: useFrame_def Let_def card_loop_nth)

lemma update_card_spec:
  "update_card mode focused dt c =
     c\<lparr>time := time c + dt,
       velocity := spec_velocity (position c) (velocity c) (spec_target mode focused c) dt,
       position := spec_position (position c)
                     (spec_velocity (position c) (velocity c) (spec_target mode focused c) dt) dt,
       scaleVelocity := spec_scaleVelocity (scale c) (scaleVelocity c) (spec_targetScale focused) dt,
       scale := spec_scale (scale c)
                  (spec_scaleVelocity (scale c) (scaleVelocity c) (spec_targetScale focused) dt) dt\<rparr>"
  by (cases "position c"; cases "velocity c"; cases "spec_target mode focused c")
     (simp add: update_card_def Let_def spec_velocity_def spec_position_def spec_scaleVelocity_def
        spec_scale_def spec_targetScale_def sub_def add_def multiplyScalar_def
        SPRING_STIFFNESS_def SPRING_DAMPING_def SCALE_STIFFNESS_def SCALE_DAMPING_def
        spec_target_def [symmetric] algebra_simps)

text \<open>
  Claim C6, the spring step of the frame callback. For a card that has its group in the
  scene, one frame with elapsed time \<open>delta\<close> uses dt = min(delta, 0.033); the target is
  (0, 0, 0.8) with target scale 5 when the card is focused, else the tree target in tree
  mode and the galaxy target otherwise, with target scale 0.4; the velocity grows by
  (-25 (position - target) - 8 velocity) dt and the position then by the new velocity
  times dt; the scale velocity grows by (-30 (scale - targetScale) - 10 scaleVelocity) dt
  and the scale then by the new scale velocity times dt.
\<close>
theorem spring_choreography_step:
  assumes "i < length cards" and "mesh_present meshRefs i"
  shows "let c = cards ! i;
             c' = snd (useFrame state focusedIndex delta meshRefs cards) ! i;
             dt = spec_dt delta;
             focused = (focusedIndex = Some i);
             target = spec_target state focused c;
             targetScale = spec_targetScale focused
         in velocity c' = spec_velocity (position c) (velocity c) target dt
            \<and> position c' = spec_position (position c) (velocity c') dt
            \<and> scaleVelocity c' = spec_scaleVelocity (scale c) (scaleVelocity c) targetScale dt
            \<and> scale c' = spec_scale (scale c) (scaleVelocity c') dt"
  using assms by (simp add: useFrame_nth update_card_spec spec_dt_def Let_def)

theorem spring_choreography_step_witness:
  "(0::nat) < length [resting_card] \<and> mesh_present [Some some_mesh] 0
   \<and> velocity (snd (useFrame Tree (Some 0) 1 [Some some_mesh] [resting_card]) ! 0)
        = (- 0.825, 0, 0.66)
   \<and> position (snd (useFrame Tree (Some 0) 1 [Some some_mesh] [resting_card]) ! 0)
        = (0.972775, 0, 0.02178)
   \<and> scaleVelocity (snd (useFrame Tree (Some 0) 1 [Some some_mesh] [resting_card]) ! 0) = 4.554
   \<and> scale (snd (useFrame Tree (Some 0) 1 [Some some_mesh] [resting_card]) ! 0) = 0.550282
   \<and> velocity (snd (useFrame Galaxy None 0.01 [Some some_mesh] [resting_card]) ! 0)
        = (- 0.25, 1, 0)"
proof -
  have a: "(0::nat) < length [resting_card]" by simp
  have b: "mesh_present [Some some_mesh] 0" by (simp add: mesh_present_def at_index_def)
  from spring_choreography_step [OF a b, of Tree "Some 0" 1]
       spring_choreography_step [OF a b, of Galaxy None "0.01"]
  show ?thesis
    using a b
    by (simp add: Let_def spec_dt_def spec_target_def spec_targetScale_def spec_velocity_def
          spec_position_def spec_scaleVelocity_def spec_scale_def resting_card_def)
qed

section \<open>Properties of the particle system and round trips\<close>


























end
